theory Spec2Isabelle
  imports Main "HOL-Library.Sublist" "HOL-Library.Char_ord" "HOL-Library.List_Lexorder"
    "HOL-Library.AList"
begin

section \<open>Python strings\<close>

text \<open>
  Header values reach the program as text whose characters are the bytes of the request
  (latin-1), so a Python \<open>str\<close> is a \<^typ>\<open>string\<close> here. The functions below are the
  methods of \<open>str\<close> that \<open>ThankYou.py\<close> calls.
\<close>

definition py_isspace :: "char \<Rightarrow> bool" where
  \<comment> \<open>the characters below 256 that \<open>str.strip()\<close> removes\<close>
  "py_isspace c =
     (c \<in> set [CHR 0x09, CHR 0x0A, CHR 0x0B, CHR 0x0C, CHR 0x0D,
                CHR 0x1C, CHR 0x1D, CHR 0x1E, CHR 0x1F, CHR 0x20, CHR 0x85, CHR 0xA0])"

definition strip :: "string \<Rightarrow> string" where
  "strip s = rev (dropWhile py_isspace (rev (dropWhile py_isspace s)))"

definition startswith :: "string \<Rightarrow> string list \<Rightarrow> bool" where
  \<comment> \<open>\<open>s.startswith(tuple)\<close>: some element of the tuple is a prefix of \<open>s\<close>\<close>
  "startswith s tup = list_ex (\<lambda>p. prefix p s) tup"

definition endswith :: "string \<Rightarrow> string \<Rightarrow> bool" where
  "endswith s suf = suffix suf s"

function split :: "string \<Rightarrow> char \<Rightarrow> string list" where
  "split s sep =
     (case dropWhile (\<lambda>c. c \<noteq> sep) s of
        [] \<Rightarrow> [s]
      | _ # rest \<Rightarrow> takeWhile (\<lambda>c. c \<noteq> sep) s # split rest sep)"
  by pat_completeness auto
termination
proof (relation "measure (\<lambda>(s, sep). length s)")
  show "wf (measure (\<lambda>(s, sep). length s))" by simp
next
  fix s :: string and sep x rest
  assume "dropWhile (\<lambda>c. c \<noteq> sep) s = x # rest"
  then have "length (x # rest) \<le> length s"
    by (metis length_dropWhile_le)
  then show "((rest, sep), (s, sep)) \<in> measure (\<lambda>(s, sep). length s)" by simp
qed

function replace_from :: "string \<Rightarrow> string \<Rightarrow> string \<Rightarrow> string" where
  "replace_from old new [] = []"
| "replace_from old new (c # cs) =
     (if old \<noteq> [] \<and> prefix old (c # cs)
      then new @ replace_from old new (drop (length old) (c # cs))
      else c # replace_from old new cs)"
  by pat_completeness auto
termination
  by (relation "measure (\<lambda>(old, new, s). length s)") auto

definition replace :: "string \<Rightarrow> string \<Rightarrow> string \<Rightarrow> string" where
  \<comment> \<open>\<open>s.replace(old, new)\<close>: every occurrence, left to right, without overlap\<close>
  "replace s old new =
     (if old = [] then new @ concat (map (\<lambda>c. c # new) s) else replace_from old new s)"

section \<open>Requests and the log\<close>

datatype endpoint =
  Home | Thank_you_page | Why_page | Honour_wall | Diaries_page | Goodbyes_page
  | Views_api | Parkour_page | Weekly_page | Projects_page

datatype routing = Matched endpoint | NotFound

record request =
  cf_connecting_ip :: "string option"  \<comment> \<open>\<open>request.headers.get("CF-Connecting-IP")\<close>\<close>
  x_forwarded_for :: "string option"   \<comment> \<open>\<open>request.headers.get("X-Forwarded-For")\<close>\<close>
  remote_addr :: "string option"       \<comment> \<open>\<open>request.remote_addr\<close>\<close>
  routing :: routing                   \<comment> \<open>what the framework's URL matching found\<close>

datatype level = INFO | WARNING | ERROR

record log_record =
  levelno :: level
  msg :: string

definition truthy :: "string option \<Rightarrow> bool" where
  "truthy v = (case v of None \<Rightarrow> False | Some s \<Rightarrow> s \<noteq> [])"

definition py_or :: "string option \<Rightarrow> string option \<Rightarrow> string option" where
  \<comment> \<open>\<open>a or b\<close> on values that are \<open>None\<close> or a \<open>str\<close>\<close>
  "py_or a b = (if truthy a then a else b)"

definition next_or_none :: "'a list \<Rightarrow> 'a option" where
  \<comment> \<open>\<open>next(generator, None)\<close>\<close>
  "next_or_none xs = (case xs of [] \<Rightarrow> None | x # _ \<Rightarrow> Some x)"

definition private_prefixes :: "string list" where
  "private_prefixes = [''10.'', ''172.'', ''192.168.'']"

definition ip_chain :: "string option \<Rightarrow> string list" where
  "ip_chain xff = (if truthy xff then split (the xff) CHR '','' else [])"

definition public_ip :: "string option \<Rightarrow> string option" where
  "public_ip xff =
     next_or_none
       (map strip (filter (\<lambda>ip. \<not> startswith (strip ip) private_prefixes) (ip_chain xff)))"

definition real_ip :: "request \<Rightarrow> string option" where
  "real_ip r =
     py_or (cf_connecting_ip r) (py_or (public_ip (x_forwarded_for r)) (remote_addr r))"

definition fmt :: "string option \<Rightarrow> string" where
  \<comment> \<open>how an f-string prints a value that is \<open>None\<close> or a \<open>str\<close>\<close>
  "fmt v = (case v of None \<Rightarrow> ''None'' | Some s \<Rightarrow> s)"

definition action_line :: "string \<Rightarrow> request \<Rightarrow> string" where
  "action_line action r =
     action @ '' | Real IP: '' @ fmt (real_ip r) @ '', CF-IP: '' @ fmt (cf_connecting_ip r)
       @ '', XFF: '' @ fmt (x_forwarded_for r) @ '', Remote: '' @ fmt (remote_addr r)"

section \<open>Files, JSON and the platform\<close>

datatype error =
  FileNotFoundError | OSError | JSONDecodeError | UnicodeDecodeError | TypeError | KeyError

text \<open>
  The values \<open>json.load\<close> produces. The payload of a float is left abstract (type \<open>'f\<close>);
  a \<open>dict\<close> is the list of its items in insertion order.
\<close>

datatype 'f json =
  JNull | JBool bool | JInt int | JFloat 'f | JStr string
  | JArr "'f json list" | JObj "(string \<times> 'f json) list"

text \<open>
  The library functions the program calls and whose code is not part of the repository:
  the JSON codec, float addition, the Markdown converter and the text of an exception.
\<close>

record 'f platform =
  json_loads :: "string \<Rightarrow> error + 'f json"
  json_dumps :: "'f json \<Rightarrow> string"
  float_add_one :: "'f \<Rightarrow> 'f"
  markdown_markdown :: "string \<Rightarrow> string list \<Rightarrow> error + string"
  exc_str :: "error \<Rightarrow> string"

text \<open>
  The part of the machine the program reads and writes: the text of each file (\<open>None\<close>:
  there is no file to open at this path, and opening it raises), the names in each
  directory (\<open>None\<close>: listing it raises), and the lines the root logger has emitted.
  Paths and filenames are the strings of their bytes; on UTF-8 names the order of the
  bytes is the order of the code points that \<open>sorted\<close> compares. A write to an open file
  takes effect in full: faults of the storage device are outside the model.
\<close>

record world =
  files :: "string \<rightharpoonup> string"
  listdir :: "string \<rightharpoonup> string list"
  log_lines :: "log_record list"

definition os_path_join :: "string \<Rightarrow> string \<Rightarrow> string" where
  "os_path_join a b =
     (if prefix ''/'' b then b
      else if a = [] \<or> suffix ''/'' a then a @ b
      else a @ ''/'' @ b)"

definition DATA_FOLDER :: string where "DATA_FOLDER = ''Data''"
definition VIEWS_FILE :: string where "VIEWS_FILE = os_path_join DATA_FOLDER ''views.json''"
definition HONOUR_FILE :: string where "HONOUR_FILE = os_path_join DATA_FOLDER ''honour.json''"
definition GOODBYES_FILE :: string where
  "GOODBYES_FILE = os_path_join DATA_FOLDER ''goodbyes.json''"
definition DIARY_FOLDER :: string where "DIARY_FOLDER = ''diaries''"

definition total_views_default :: "'f json" where
  "total_views_default = JObj [(''total_views'', JInt 0)]"

definition ensure_file :: "'f platform \<Rightarrow> string \<times> 'f json \<Rightarrow> world \<Rightarrow> world" where
  "ensure_file P fd w =
     (case fd of (file_path, dflt) \<Rightarrow>
        if files w file_path = None
        then w\<lparr>files := (files w)(file_path \<mapsto> json_dumps P dflt)\<rparr>
        else w)"

definition bootstrap :: "'f platform \<Rightarrow> world \<Rightarrow> world" where
  \<comment> \<open>lines 43 to 54: the folders and the three data files exist afterwards\<close>
  "bootstrap P w =
     fold (ensure_file P)
       [(VIEWS_FILE, total_views_default), (HONOUR_FILE, JArr []), (GOODBYES_FILE, JArr [])]
       (if listdir w DIARY_FOLDER = None
        then w\<lparr>listdir := (listdir w)(DIARY_FOLDER \<mapsto> [])\<rparr> else w)"

definition logger_info :: "string \<Rightarrow> world \<Rightarrow> world" where
  "logger_info m w = w\<lparr>log_lines := log_lines w @ [\<lparr>levelno = INFO, msg = m\<rparr>]\<rparr>"

definition logger_error :: "string \<Rightarrow> world \<Rightarrow> world" where
  "logger_error m w = w\<lparr>log_lines := log_lines w @ [\<lparr>levelno = ERROR, msg = m\<rparr>]\<rparr>"

definition log_action :: "string \<Rightarrow> request \<Rightarrow> world \<Rightarrow> world" where
  "log_action action r w = logger_info (action_line action r) w"

section \<open>The view counter\<close>

text \<open>The file object \<open>f\<close> of the \<open>with\<close> block: the text of the file and the position.\<close>

record file_object =
  content :: string
  pos :: nat

definition open_rw :: "error option \<Rightarrow> world \<Rightarrow> string \<Rightarrow> error + file_object" where
  \<comment> \<open>\<open>open\<close> in mode \<open>r+\<close>. The first argument is an error the operating system raises for
     a reason other than the file being absent (\<open>None\<close>: it raises none).\<close>
  "open_rw fault w path =
     (case fault of
        Some e \<Rightarrow> Inl e
      | None \<Rightarrow>
          (case files w path of
             None \<Rightarrow> Inl FileNotFoundError
           | Some text \<Rightarrow> Inr \<lparr>content = text, pos = 0\<rparr>))"

definition json_load :: "'f platform \<Rightarrow> file_object \<Rightarrow> error + ('f json \<times> file_object)" where
  "json_load P f =
     (case json_loads P (drop (pos f) (content f)) of
        Inl e \<Rightarrow> Inl e
      | Inr d \<Rightarrow> Inr (d, f\<lparr>pos := max (pos f) (length (content f))\<rparr>))"

definition seek :: "file_object \<Rightarrow> nat \<Rightarrow> file_object" where
  "seek f n = f\<lparr>pos := n\<rparr>"

definition write_text :: "file_object \<Rightarrow> string \<Rightarrow> file_object" where
  "write_text f s =
     f\<lparr>content := take (pos f) (content f) @ replicate (pos f - length (content f)) (CHR 0x00)
                     @ s @ drop (pos f + length s) (content f),
       pos := pos f + length s\<rparr>"

definition truncate_file :: "file_object \<Rightarrow> file_object" where
  "truncate_file f =
     f\<lparr>content := take (pos f) (content f) @ replicate (pos f - length (content f)) (CHR 0x00)\<rparr>"

definition close :: "file_object \<Rightarrow> string \<Rightarrow> world \<Rightarrow> world" where
  "close f path w = w\<lparr>files := (files w)(path \<mapsto> content f)\<rparr>"

definition getitem :: "'f json \<Rightarrow> string \<Rightarrow> error + 'f json" where
  \<comment> \<open>\<open>data[key]\<close> with a string key\<close>
  "getitem data key =
     (case data of
        JObj kvs \<Rightarrow> (case map_of kvs key of None \<Rightarrow> Inl KeyError | Some v \<Rightarrow> Inr v)
      | _ \<Rightarrow> Inl TypeError)"

definition add_one :: "'f platform \<Rightarrow> 'f json \<Rightarrow> error + 'f json" where
  \<comment> \<open>\<open>v + 1\<close>\<close>
  "add_one P v =
     (case v of
        JInt n \<Rightarrow> Inr (JInt (n + 1))
      | JBool b \<Rightarrow> Inr (JInt ((if b then 1 else 0) + 1))
      | JFloat x \<Rightarrow> Inr (JFloat (float_add_one P x))
      | _ \<Rightarrow> Inl TypeError)"

definition setitem :: "'f json \<Rightarrow> string \<Rightarrow> 'f json \<Rightarrow> error + 'f json" where
  "setitem data key v =
     (case data of JObj kvs \<Rightarrow> Inr (JObj (AList.update key v kvs)) | _ \<Rightarrow> Inl TypeError)"

definition increment_item :: "'f platform \<Rightarrow> 'f json \<Rightarrow> string \<Rightarrow> error + 'f json" where
  \<comment> \<open>\<open>data[key] += 1\<close>\<close>
  "increment_item P data key =
     (case getitem data key of
        Inl e \<Rightarrow> Inl e
      | Inr v \<Rightarrow> (case add_one P v of Inl e \<Rightarrow> Inl e | Inr v' \<Rightarrow> setitem data key v'))"

definition views_try :: "'f platform \<Rightarrow> error option \<Rightarrow> world \<Rightarrow> (error + 'f json) \<times> world" where
  \<comment> \<open>the body of the \<open>try\<close> in \<open>get_and_increment_views\<close>: what it returns or raises, and
     the world it leaves\<close>
  "views_try P fault w =
     (case open_rw fault w VIEWS_FILE of
        Inl e \<Rightarrow> (Inl e, w)
      | Inr f \<Rightarrow>
          (case json_load P f of
             Inl e \<Rightarrow> (Inl e, w)
           | Inr (data, f1) \<Rightarrow>
               (case increment_item P data ''total_views'' of
                  Inl e \<Rightarrow> (Inl e, w)
                | Inr data' \<Rightarrow>
                    (let f2 = seek f1 0;
                         f3 = write_text f2 (json_dumps P data');
                         f4 = truncate_file f3;
                         w' = close f4 VIEWS_FILE w
                     in (getitem data' ''total_views'', w')))))"

definition get_and_increment_views ::
  "'f platform \<Rightarrow> error option \<Rightarrow> world \<Rightarrow> 'f json \<times> world" where
  "get_and_increment_views P fault w =
     (case views_try P fault w of
        (Inr v, w') \<Rightarrow> (v, w')
      | (Inl e, w') \<Rightarrow> (JInt (- 1), logger_error (''Error updating views: '' @ exc_str P e) w'))"

section \<open>The routes\<close>

record entry =
  title :: string
  content_html :: string

datatype 'f template_context = No_context | Entries "'f json" | Diary_entries "entry list"

datatype 'f response =
  Template string "'f template_context"          \<comment> \<open>\<open>render_template(name, entries=...)\<close>\<close>
  | Jsonify "(string \<times> 'f json) list"    \<comment> \<open>\<open>jsonify(dict)\<close>\<close>
  | Redirect string                     \<comment> \<open>\<open>redirect(location)\<close>\<close>
  | Abort nat                           \<comment> \<open>\<open>abort(code)\<close>\<close>

definition static_page :: "string \<Rightarrow> string \<Rightarrow> request \<Rightarrow> world \<Rightarrow> 'f response \<times> world" where
  \<comment> \<open>the shape of \<open>home\<close>, \<open>thank_you_page\<close>, \<open>why_page\<close>, \<open>parkour_page\<close>, \<open>weekly_page\<close>
     and \<open>projects_page\<close>\<close>
  "static_page action template r w = (Template template No_context, log_action action r w)"

definition json_page ::
  "'f platform \<Rightarrow> string \<Rightarrow> string \<Rightarrow> string \<Rightarrow> string \<Rightarrow> request \<Rightarrow> world
     \<Rightarrow> 'f response \<times> world" where
  \<comment> \<open>the shape of \<open>honour_wall\<close> and \<open>goodbyes_page\<close>\<close>
  "json_page P path name action template r w =
     (case (case files w path of None \<Rightarrow> Inl FileNotFoundError | Some text \<Rightarrow> json_loads P text) of
        Inr entries \<Rightarrow> (Template template (Entries entries), log_action action r w)
      | Inl e \<Rightarrow>
          (Template template (Entries (JArr [])),
           log_action action r
             (logger_error (''Error loading '' @ name @ '': '' @ exc_str P e) w)))"

definition honour_wall :: "'f platform \<Rightarrow> request \<Rightarrow> world \<Rightarrow> 'f response \<times> world" where
  "honour_wall P = json_page P HONOUR_FILE ''honour.json'' ''Viewed Honour Wall'' ''honour.html''"

definition goodbyes_page :: "'f platform \<Rightarrow> request \<Rightarrow> world \<Rightarrow> 'f response \<times> world" where
  "goodbyes_page P =
     json_page P GOODBYES_FILE ''goodbyes.json'' ''Viewed Goodbyes Page'' ''goodbyes.html''"

definition sorted_reverse :: "string list \<Rightarrow> string list" where
  \<comment> \<open>\<open>sorted(xs, reverse=True)\<close>: reverse, sort stably, reverse\<close>
  "sorted_reverse xs = rev (sort (rev xs))"

definition read_text :: "world \<Rightarrow> string \<Rightarrow> error + string" where
  \<comment> \<open>open the file for reading as UTF-8 and read all of it\<close>
  "read_text w path = (case files w path of None \<Rightarrow> Inl OSError | Some text \<Rightarrow> Inr text)"

fun diaries_loop :: "'f platform \<Rightarrow> world \<Rightarrow> string list \<Rightarrow> entry list \<Rightarrow> error + entry list" where
  "diaries_loop P w [] entries = Inr entries"
| "diaries_loop P w (filename # rest) entries =
     (if endswith filename ''.md'' then
        (case read_text w (os_path_join DIARY_FOLDER filename) of
           Inl e \<Rightarrow> Inl e
         | Inr md_content \<Rightarrow>
             (case markdown_markdown P md_content [''fenced_code'', ''codehilite''] of
                Inl e \<Rightarrow> Inl e
              | Inr html_content \<Rightarrow>
                  diaries_loop P w rest
                    (entries @ [\<lparr>title = replace filename ''.md'' [],
                                 content_html = html_content\<rparr>])))
      else diaries_loop P w rest entries)"

definition diaries_try :: "'f platform \<Rightarrow> request \<Rightarrow> world \<Rightarrow> error + ('f response \<times> world)" where
  "diaries_try P r w =
     (case listdir w DIARY_FOLDER of
        None \<Rightarrow> Inl OSError
      | Some names \<Rightarrow>
          (case diaries_loop P w (sorted_reverse names) [] of
             Inl e \<Rightarrow> Inl e
           | Inr entries \<Rightarrow>
               Inr (Template ''diaries.html'' (Diary_entries entries),
                    log_action ''Viewed Diaries Page'' r w)))"

definition diaries_page :: "'f platform \<Rightarrow> request \<Rightarrow> world \<Rightarrow> 'f response \<times> world" where
  "diaries_page P r w =
     (case diaries_try P r w of
        Inr res \<Rightarrow> res
      | Inl e \<Rightarrow> (Abort 500, logger_error (''Error loading diaries: '' @ exc_str P e) w))"

definition views_api ::
  "'f platform \<Rightarrow> error option \<Rightarrow> request \<Rightarrow> world \<Rightarrow> 'f response \<times> world" where
  "views_api P fault r w =
     (case get_and_increment_views P fault w of
        (views, w1) \<Rightarrow>
          (Jsonify [(''total_views'', views)], log_action ''Viewed /api/views'' r w1))"

definition page_not_found :: "request \<Rightarrow> world \<Rightarrow> 'f response \<times> world" where
  "page_not_found r w = (Redirect ''/'', log_action ''404 Redirect'' r w)"

definition dispatch ::
  "'f platform \<Rightarrow> error option \<Rightarrow> request \<Rightarrow> world \<Rightarrow> 'f response \<times> world" where
  \<comment> \<open>the view of the matched rule, or the handler registered for 404\<close>
  "dispatch P fault r w =
     (case routing r of
        NotFound \<Rightarrow> page_not_found r w
      | Matched Home \<Rightarrow> static_page ''Viewed Home Page'' ''home.html'' r w
      | Matched Thank_you_page \<Rightarrow> static_page ''Viewed Thank You Page'' ''thankyou.html'' r w
      | Matched Why_page \<Rightarrow> static_page ''Viewed Why Page'' ''why.html'' r w
      | Matched Honour_wall \<Rightarrow> honour_wall P r w
      | Matched Diaries_page \<Rightarrow> diaries_page P r w
      | Matched Goodbyes_page \<Rightarrow> goodbyes_page P r w
      | Matched Views_api \<Rightarrow> views_api P fault r w
      | Matched Parkour_page \<Rightarrow> static_page ''Viewed Parkour Page'' ''parkour.html'' r w
      | Matched Weekly_page \<Rightarrow> static_page ''Viewed Weekly Page'' ''weekly.html'' r w
      | Matched Projects_page \<Rightarrow> static_page ''Viewed Projects Page'' ''projects.html'' r w)"

section \<open>Runs of the views endpoint\<close>

fun hit_all :: "'f platform \<Rightarrow> error option list \<Rightarrow> world \<Rightarrow> world" where
  \<comment> \<open>one call of \<open>get_and_increment_views\<close> after the other, one per element\<close>
  "hit_all P [] w = w"
| "hit_all P (fault # faults) w = hit_all P faults (snd (get_and_increment_views P fault w))"

fun successes :: "'f platform \<Rightarrow> error option list \<Rightarrow> world \<Rightarrow> nat" where
  \<comment> \<open>how many of these calls leave the \<open>try\<close> without an exception\<close>
  "successes P [] w = 0"
| "successes P (fault # faults) w =
     (case fst (views_try P fault w) of Inr _ \<Rightarrow> 1 | Inl _ \<Rightarrow> 0)
       + successes P faults (snd (get_and_increment_views P fault w))"

definition counter_doc :: "int \<Rightarrow> 'f json" where
  "counter_doc n = JObj [(''total_views'', JInt n)]"

definition stored_total :: "'f platform \<Rightarrow> world \<Rightarrow> int option" where
  \<comment> \<open>the integer under \<open>total_views\<close> in the document the counter file holds\<close>
  "stored_total P w =
     (case files w VIEWS_FILE of
        None \<Rightarrow> None
      | Some text \<Rightarrow>
          (case json_loads P text of
             Inl e \<Rightarrow> None
           | Inr d \<Rightarrow> (case getitem d ''total_views'' of Inr (JInt n) \<Rightarrow> Some n | _ \<Rightarrow> None)))"

section \<open>The specification's wording, for comparison\<close>

definition spec_private_form :: "string \<Rightarrow> bool" where
  \<comment> \<open>10.x, 172.16 to 172.31, 192.168.x, by string prefix\<close>
  "spec_private_form s =
     startswith s
       [''10.'', ''172.16.'', ''172.17.'', ''172.18.'', ''172.19.'', ''172.20.'', ''172.21.'',
        ''172.22.'', ''172.23.'', ''172.24.'', ''172.25.'', ''172.26.'', ''172.27.'',
        ''172.28.'', ''172.29.'', ''172.30.'', ''172.31.'', ''192.168.'']"

definition spec_public_ip :: "string option \<Rightarrow> string option" where
  \<comment> \<open>the first entry of the chain that is not of a private form\<close>
  "spec_public_ip xff = find (\<lambda>ip. \<not> spec_private_form ip) (map strip (ip_chain xff))"

definition spec_real_ip :: "request \<Rightarrow> string option" where
  \<comment> \<open>the edge header when present, else the first non-private entry when one exists,
     else the peer address\<close>
  "spec_real_ip r =
     (case cf_connecting_ip r of
        Some v \<Rightarrow> Some v
      | None \<Rightarrow>
          (case public_ip (x_forwarded_for r) of
             Some ip \<Rightarrow> Some ip
           | None \<Rightarrow> remote_addr r))"

definition spec_title :: "string \<Rightarrow> string" where
  \<comment> \<open>the filename without its extension \<open>.md\<close>\<close>
  "spec_title filename =
     (if endswith filename ''.md'' then take (length filename - length ''.md'') filename
      else filename)"

section \<open>Sample inputs\<close>

definition counter_text :: "string \<Rightarrow> string" where
  \<comment> \<open>the text \<open>json.dump\<close> writes for the counter document with this number\<close>
  "counter_text digits =
     ''{'' @ [CHR 0x22] @ ''total_views'' @ [CHR 0x22] @ '': '' @ digits @ ''}''"

definition counter_table :: "(string \<times> unit json) list" where
  "counter_table =
     [(counter_text ''0'', counter_doc 0), (counter_text ''1'', counter_doc 1),
      (counter_text ''2'', counter_doc 2), (counter_text ''3'', counter_doc 3),
      (''[]'', JArr [])]"

definition table_platform :: "unit platform" where
  \<comment> \<open>a platform restricted to the documents and texts of the samples below\<close>
  "table_platform =
     \<lparr>json_loads = (\<lambda>s. case map_of counter_table s of
                           Some d \<Rightarrow> Inr d | None \<Rightarrow> Inl JSONDecodeError),
      json_dumps = (\<lambda>d. case find (\<lambda>(s, d'). d' = d) counter_table of
                           Some (s, _) \<Rightarrow> s | None \<Rightarrow> ''null''),
      float_add_one = (\<lambda>x. x),
      markdown_markdown = (\<lambda>text exts. Inr (''<p>'' @ text @ ''</p>'')),
      exc_str = (\<lambda>e. ''error'')\<rparr>"

definition empty_world :: world where
  "empty_world = \<lparr>files = Map.empty, listdir = Map.empty, log_lines = []\<rparr>"

definition sample_request :: request where
  "sample_request =
     \<lparr>cf_connecting_ip = None, x_forwarded_for = Some ''10.0.0.5, 8.8.8.8'',
      remote_addr = Some ''203.0.113.7'', routing = NotFound\<rparr>"

definition diary_world :: world where
  "diary_world =
     \<lparr>files = [''diaries/2024-01-01.md'' \<mapsto> ''one'', ''diaries/2024-02-01.md'' \<mapsto> ''two'',
               ''diaries/notes.md.md'' \<mapsto> ''three''],
      listdir = [''diaries'' \<mapsto> [''2024-01-01.md'', ''readme.txt'', ''notes.md.md'', ''2024-02-01.md'']],
      log_lines = []\<rparr>"

section \<open>Properties of IP attribution\<close>

lemma next_or_none_filter_None:
  "next_or_none (map f (filter Q xs)) = None \<longleftrightarrow> (\<forall>x\<in>set xs. \<not> Q x)"
proof -
  have "next_or_none (map f (filter Q xs)) = None \<longleftrightarrow> filter Q xs = []"
    by (cases "filter Q xs") (simp_all add: next_or_none_def)
  then show ?thesis by (simp add: filter_empty_conv)
qed

lemma next_or_none_filter_Some:
  "next_or_none (map f (filter Q xs)) = Some y \<longleftrightarrow>
     (\<exists>pre x post. xs = pre @ x # post \<and> (\<forall>p\<in>set pre. \<not> Q p) \<and> Q x \<and> y = f x)"
proof (induction xs)
  case Nil
  then show ?case by (simp add: next_or_none_def)
next
  case (Cons a xs)
  show ?case
  proof (cases "Q a")
    case True
    have "(\<exists>pre x post. a # xs = pre @ x # post \<and> (\<forall>p\<in>set pre. \<not> Q p) \<and> Q x \<and> y = f x)
            \<longleftrightarrow> y = f a"
    proof
      assume "\<exists>pre x post. a # xs = pre @ x # post \<and> (\<forall>p\<in>set pre. \<not> Q p) \<and> Q x \<and> y = f x"
      then obtain pre x post where
        h: "a # xs = pre @ x # post" "\<forall>p\<in>set pre. \<not> Q p" "Q x" "y = f x"
        by blast
      from h(1,2) True have "pre = []" by (cases pre) auto
      with h show "y = f a" by simp
    next
      assume "y = f a"
      with True have "a # xs = [] @ a # xs \<and> (\<forall>p\<in>set []. \<not> Q p) \<and> Q a \<and> y = f a" by simp
      then show "\<exists>pre x post. a # xs = pre @ x # post \<and> (\<forall>p\<in>set pre. \<not> Q p) \<and> Q x \<and> y = f x"
        by blast
    qed
    with True show ?thesis by (auto simp: next_or_none_def)
  next
    case False
    have "(\<exists>pre x post. a # xs = pre @ x # post \<and> (\<forall>p\<in>set pre. \<not> Q p) \<and> Q x \<and> y = f x)
            \<longleftrightarrow> (\<exists>pre x post. xs = pre @ x # post \<and> (\<forall>p\<in>set pre. \<not> Q p) \<and> Q x \<and> y = f x)"
      (is "?L \<longleftrightarrow> ?R")
    proof
      assume ?L
      then obtain pre x post where
        h: "a # xs = pre @ x # post" "\<forall>p\<in>set pre. \<not> Q p" "Q x" "y = f x"
        by blast
      from h(1,3) False obtain pre' where p: "pre = a # pre'" by (cases pre) auto
      with h have "xs = pre' @ x # post \<and> (\<forall>p\<in>set pre'. \<not> Q p) \<and> Q x \<and> y = f x" by simp
      then show ?R by blast
    next
      assume ?R
      then obtain pre x post where
        h: "xs = pre @ x # post" "\<forall>p\<in>set pre. \<not> Q p" "Q x" "y = f x"
        by blast
      with False have "a # xs = (a # pre) @ x # post \<and> (\<forall>p\<in>set (a # pre). \<not> Q p) \<and> Q x \<and> y = f x"
        by simp
      then show ?L by blast
    qed
    with False Cons.IH show ?thesis by simp
  qed
qed

lemma startswith_private_prefixes:
  "startswith s private_prefixes \<longleftrightarrow> prefix ''10.'' s \<or> prefix ''172.'' s \<or> prefix ''192.168.'' s"
  by (simp add: startswith_def private_prefixes_def)

lemma split_sample: "split ''10.0.0.5, 8.8.8.8'' CHR '','' = [''10.0.0.5'', '' 8.8.8.8'']"
  by simp

lemma strip_sample: "strip '' 8.8.8.8'' = ''8.8.8.8''" "strip ''10.0.0.5'' = ''10.0.0.5''"
  by (simp_all add: strip_def py_isspace_def)

lemma public_ip_sample: "public_ip (Some ''10.0.0.5, 8.8.8.8'') = Some ''8.8.8.8''"
  by (simp add: public_ip_def ip_chain_def truthy_def next_or_none_def
      startswith_private_prefixes strip_sample del: split.simps add: split_sample)

lemma public_ip_absent: "public_ip None = None"
  by (simp add: public_ip_def ip_chain_def truthy_def next_or_none_def)

text \<open>
  C1, as amended. An entry of the forwarded-for chain is skipped exactly when its text,
  stripped of surrounding whitespace, starts with \<open>10.\<close>, \<open>172.\<close> (whatever the second
  octet) or \<open>192.168.\<close>; the public IP is the stripped text of the first entry that is not
  skipped, and there is none when every entry is skipped.
\<close>

theorem public_ip_first_unskipped:
  "(startswith (strip ip) private_prefixes \<longleftrightarrow>
      prefix ''10.'' (strip ip) \<or> prefix ''172.'' (strip ip) \<or> prefix ''192.168.'' (strip ip))
   \<and> (public_ip xff = None \<longleftrightarrow>
        (\<forall>e\<in>set (ip_chain xff). startswith (strip e) private_prefixes))
   \<and> (public_ip xff = Some y \<longleftrightarrow>
        (\<exists>pre e post. ip_chain xff = pre @ e # post
           \<and> (\<forall>p\<in>set pre. startswith (strip p) private_prefixes)
           \<and> \<not> startswith (strip e) private_prefixes \<and> y = strip e))"
proof -
  have a: "public_ip xff = None \<longleftrightarrow>
        (\<forall>e\<in>set (ip_chain xff). startswith (strip e) private_prefixes)"
    unfolding public_ip_def by (simp add: next_or_none_filter_None)
  have b: "public_ip xff = Some y \<longleftrightarrow>
        (\<exists>pre e post. ip_chain xff = pre @ e # post
           \<and> (\<forall>p\<in>set pre. startswith (strip p) private_prefixes)
           \<and> \<not> startswith (strip e) private_prefixes \<and> y = strip e)"
    unfolding public_ip_def by (simp add: next_or_none_filter_Some)
  from a b startswith_private_prefixes show ?thesis by blast
qed

theorem public_ip_first_unskipped_witness:
  "public_ip (Some ''10.0.0.5, 8.8.8.8'') = Some ''8.8.8.8''
   \<and> (\<exists>pre e post. ip_chain (Some ''10.0.0.5, 8.8.8.8'') = pre @ e # post
           \<and> (\<forall>p\<in>set pre. startswith (strip p) private_prefixes)
           \<and> \<not> startswith (strip e) private_prefixes \<and> ''8.8.8.8'' = strip e)"
  using public_ip_first_unskipped [of "''10.0.0.5''" "Some ''10.0.0.5, 8.8.8.8''" "''8.8.8.8''"]
    public_ip_sample
  by simp

theorem private_form_counterexample:
  "startswith (strip ''172.32.0.1'') private_prefixes
   \<and> \<not> spec_private_form (strip ''172.32.0.1'')
   \<and> public_ip (Some ''172.32.0.1,8.8.8.8'') = Some ''8.8.8.8''
   \<and> spec_public_ip (Some ''172.32.0.1,8.8.8.8'') = Some ''172.32.0.1''"
  by (simp add: public_ip_def spec_public_ip_def ip_chain_def truthy_def next_or_none_def
      startswith_def private_prefixes_def spec_private_form_def strip_def py_isspace_def)

text \<open>
  C3, as amended. The logged real IP is the edge-proxy header when it is present and not
  empty; otherwise the public IP found in the forwarded-for chain when there is one and it
  is not empty; otherwise the peer address. With no edge-proxy header and forwarded-for
  \<open>10.0.0.5, 8.8.8.8\<close> it is \<open>8.8.8.8\<close>, and with no proxy header at all it is the peer
  address.
\<close>

theorem real_ip_resolution_order:
  "(\<forall>v. cf_connecting_ip r = Some v \<and> v \<noteq> [] \<longrightarrow> real_ip r = Some v)
   \<and> (\<forall>y. \<not> truthy (cf_connecting_ip r) \<and> public_ip (x_forwarded_for r) = Some y \<and> y \<noteq> []
          \<longrightarrow> real_ip r = Some y)
   \<and> (\<not> truthy (cf_connecting_ip r) \<and> \<not> truthy (public_ip (x_forwarded_for r))
          \<longrightarrow> real_ip r = remote_addr r)
   \<and> (cf_connecting_ip r = None \<and> x_forwarded_for r = Some ''10.0.0.5, 8.8.8.8''
          \<longrightarrow> real_ip r = Some ''8.8.8.8'')
   \<and> (cf_connecting_ip r = None \<and> x_forwarded_for r = None \<longrightarrow> real_ip r = remote_addr r)"
proof -
  have 1: "\<forall>v. cf_connecting_ip r = Some v \<and> v \<noteq> [] \<longrightarrow> real_ip r = Some v"
    by (simp add: real_ip_def py_or_def truthy_def)
  have 2: "\<forall>y. \<not> truthy (cf_connecting_ip r) \<and> public_ip (x_forwarded_for r) = Some y \<and> y \<noteq> []
          \<longrightarrow> real_ip r = Some y"
    by (simp add: real_ip_def py_or_def truthy_def)
  have 3: "\<not> truthy (cf_connecting_ip r) \<and> \<not> truthy (public_ip (x_forwarded_for r))
          \<longrightarrow> real_ip r = remote_addr r"
    by (simp add: real_ip_def py_or_def)
  have 4: "cf_connecting_ip r = None \<and> x_forwarded_for r = Some ''10.0.0.5, 8.8.8.8''
          \<longrightarrow> real_ip r = Some ''8.8.8.8''"
    by (simp add: real_ip_def py_or_def truthy_def public_ip_sample)
  have 5: "cf_connecting_ip r = None \<and> x_forwarded_for r = None \<longrightarrow> real_ip r = remote_addr r"
    by (simp add: real_ip_def py_or_def truthy_def public_ip_absent)
  from 1 2 3 4 5 show ?thesis by blast
qed

theorem real_ip_resolution_order_witness:
  "cf_connecting_ip sample_request = None
   \<and> x_forwarded_for sample_request = Some ''10.0.0.5, 8.8.8.8''
   \<and> real_ip sample_request = Some ''8.8.8.8''"
  using real_ip_resolution_order [of sample_request]
  by (simp add: sample_request_def)

theorem real_ip_presence_counterexample:
  "real_ip \<lparr>cf_connecting_ip = Some [], x_forwarded_for = None,
            remote_addr = Some ''203.0.113.7'', routing = Matched Home\<rparr> = Some ''203.0.113.7''
   \<and> spec_real_ip \<lparr>cf_connecting_ip = Some [], x_forwarded_for = None,
            remote_addr = Some ''203.0.113.7'', routing = Matched Home\<rparr> = Some []"
  by (simp add: real_ip_def spec_real_ip_def py_or_def truthy_def public_ip_absent)



section \<open>Unmatched paths\<close>

text \<open>
  C8. When the URL matches no rule, the response is a redirect to \<open>/\<close>, and the log gains
  exactly one line, an INFO line whose action label is \<open>404 Redirect\<close>; nothing else in the
  world changes.
\<close>

theorem unmatched_path_redirects_home:
  "routing r = NotFound \<Longrightarrow>
     fst (dispatch P fault r w) = Redirect ''/''
     \<and> snd (dispatch P fault r w)
         = w\<lparr>log_lines := log_lines w @ [\<lparr>levelno = INFO, msg = action_line ''404 Redirect'' r\<rparr>]\<rparr>
     \<and> prefix ''404 Redirect | '' (action_line ''404 Redirect'' r)
     \<and> length (log_lines (snd (dispatch P fault r w))) = length (log_lines w) + 1"
  by (simp add: dispatch_def page_not_found_def log_action_def logger_info_def action_line_def)

theorem unmatched_path_redirects_home_witness:
  "routing sample_request = NotFound
   \<and> fst (dispatch table_platform None sample_request empty_world) = Redirect ''/''
   \<and> log_lines (snd (dispatch table_platform None sample_request empty_world))
       = [\<lparr>levelno = INFO,
           msg = ''404 Redirect | Real IP: 8.8.8.8, CF-IP: None, XFF: 10.0.0.5, 8.8.8.8, Remote: 203.0.113.7''\<rparr>]"
proof -
  have r: "routing sample_request = NotFound" by (simp add: sample_request_def)
  have i: "real_ip sample_request = Some ''8.8.8.8''"
    by (simp add: real_ip_def py_or_def truthy_def sample_request_def public_ip_sample)
  from unmatched_path_redirects_home [OF r, of table_platform None empty_world] r i
  show ?thesis
    by (simp add: action_line_def fmt_def empty_world_def sample_request_def)
qed

section \<open>Properties of the view counter\<close>

lemma overwrite_whole_file:
  "content (truncate_file (write_text (seek f 0) s)) = s"
  by (simp add: truncate_file_def write_text_def seek_def)

lemma increment_item_getitem:
  assumes "increment_item P data key = Inr data'"
  shows "\<exists>kvs old v. data = JObj kvs \<and> map_of kvs key = Some old \<and> add_one P old = Inr v
           \<and> data' = JObj (AList.update key v kvs) \<and> getitem data' key = Inr v"
proof -
  from assms obtain old where g: "getitem data key = Inr old"
    by (auto simp: increment_item_def split: sum.splits)
  from g obtain kvs where d: "data = JObj kvs" and m: "map_of kvs key = Some old"
    by (auto simp: getitem_def split: json.splits option.splits)
  from assms g obtain v where a: "add_one P old = Inr v" and s: "setitem data key v = Inr data'"
    by (auto simp: increment_item_def split: sum.splits)
  from s d have d': "data' = JObj (AList.update key v kvs)"
    by (simp add: setitem_def)
  have "getitem data' key = Inr v"
    by (simp add: d' getitem_def update_conv')
  with d m a d' show ?thesis by blast
qed

lemma views_try_failure_world:
  assumes "fst (views_try P fault w) = Inl e"
  shows "snd (views_try P fault w) = w"
proof (cases "open_rw fault w VIEWS_FILE")
  case (Inl e1)
  then show ?thesis by (simp add: views_try_def)
next
  case (Inr f)
  show ?thesis
  proof (cases "json_load P f")
    case (Inl e2)
    with Inr show ?thesis by (simp add: views_try_def)
  next
    case (Inr df)
    obtain data f1 where df: "df = (data, f1)" by (cases df)
    show ?thesis
    proof (cases "increment_item P data ''total_views''")
      case (Inl e3)
      with \<open>open_rw fault w VIEWS_FILE = Inr f\<close> Inr df show ?thesis
        by (simp add: views_try_def)
    next
      case inc: (Inr data')
      from increment_item_getitem [OF inc] obtain v
        where "getitem data' ''total_views'' = Inr v" by blast
      with \<open>open_rw fault w VIEWS_FILE = Inr f\<close> Inr df inc assms show ?thesis
        by (simp add: views_try_def Let_def)
    qed
  qed
qed

lemma views_try_success:
  assumes "fst (views_try P fault w) = Inr v"
  shows "\<exists>text kvs old.
           fault = None \<and> files w VIEWS_FILE = Some text
           \<and> json_loads P text = Inr (JObj kvs) \<and> map_of kvs ''total_views'' = Some old
           \<and> add_one P old = Inr v
           \<and> snd (views_try P fault w)
               = w\<lparr>files := (files w)(VIEWS_FILE \<mapsto>
                     json_dumps P (JObj (AList.update ''total_views'' v kvs)))\<rparr>"
proof -
  from assms obtain f where o: "open_rw fault w VIEWS_FILE = Inr f"
    by (cases "open_rw fault w VIEWS_FILE") (simp_all add: views_try_def)
  then obtain body where fn: "fault = None" and t: "files w VIEWS_FILE = Some body"
    and f: "f = \<lparr>content = body, pos = 0\<rparr>"
    by (auto simp: open_rw_def split: option.splits)
  from assms o obtain data f1 where l: "json_load P f = Inr (data, f1)"
    by (cases "json_load P f") (auto simp: views_try_def)
  then have ld: "json_loads P body = Inr data"
    by (auto simp: json_load_def f split: sum.splits)
  from assms o l obtain data' where inc: "increment_item P data ''total_views'' = Inr data'"
    by (cases "increment_item P data ''total_views''") (auto simp: views_try_def)
  from increment_item_getitem [OF inc] obtain kvs old v' where
    k: "data = JObj kvs" "map_of kvs ''total_views'' = Some old" "add_one P old = Inr v'"
      "data' = JObj (AList.update ''total_views'' v' kvs)" "getitem data' ''total_views'' = Inr v'"
    by blast
  from assms o l inc k(5) have vv: "v' = v"
    by (simp add: views_try_def Let_def)
  have "snd (views_try P fault w)
          = w\<lparr>files := (files w)(VIEWS_FILE \<mapsto> json_dumps P data')\<rparr>"
    using o l inc by (simp add: views_try_def Let_def close_def overwrite_whole_file)
  with fn t ld k vv show ?thesis by blast
qed

text \<open>
  C5. When the call succeeds, the counter file could be opened, its text parsed to a JSON
  object with a \<open>total_views\<close> field, the value returned is that field plus one (for an
  integer \<open>n\<close> it is \<open>n + 1\<close>), and afterwards the file holds exactly the dump of the
  object with the field set to the returned value: the old text is replaced, whatever its
  length.
\<close>

theorem increment_reads_adds_writes_back:
  "fst (views_try P fault w) = Inr v \<Longrightarrow>
     \<exists>text kvs old.
        files w VIEWS_FILE = Some text
        \<and> json_loads P text = Inr (JObj kvs) \<and> map_of kvs ''total_views'' = Some old
        \<and> add_one P old = Inr v
        \<and> (\<forall>n. old = JInt n \<longrightarrow> v = JInt (n + 1))
        \<and> get_and_increment_views P fault w
            = (v, w\<lparr>files := (files w)(VIEWS_FILE \<mapsto>
                      json_dumps P (JObj (AList.update ''total_views'' v kvs)))\<rparr>)"
proof -
  assume a: "fst (views_try P fault w) = Inr v"
  from views_try_success [OF a] obtain body kvs old where
    h: "files w VIEWS_FILE = Some body" "json_loads P body = Inr (JObj kvs)"
       "map_of kvs ''total_views'' = Some old" "add_one P old = Inr v"
       "snd (views_try P fault w)
          = w\<lparr>files := (files w)(VIEWS_FILE \<mapsto>
                json_dumps P (JObj (AList.update ''total_views'' v kvs)))\<rparr>"
    by blast
  from h(4) have i: "\<forall>n. old = JInt n \<longrightarrow> v = JInt (n + 1)"
    by (auto simp: add_one_def)
  have "get_and_increment_views P fault w = (v, snd (views_try P fault w))"
    using a by (cases "views_try P fault w") (simp add: get_and_increment_views_def)
  then have g: "get_and_increment_views P fault w
            = (v, w\<lparr>files := (files w)(VIEWS_FILE \<mapsto>
                      json_dumps P (JObj (AList.update ''total_views'' v kvs)))\<rparr>)"
    by (simp only: h(5))
  from h(1-4) i g show ?thesis by blast
qed

lemma paths_distinct:
  "VIEWS_FILE \<noteq> HONOUR_FILE" "VIEWS_FILE \<noteq> GOODBYES_FILE"
  by (simp_all add: VIEWS_FILE_def HONOUR_FILE_def GOODBYES_FILE_def os_path_join_def
      DATA_FOLDER_def)

lemma ensure_file_other:
  "path \<noteq> p \<Longrightarrow> files (ensure_file P (p, d) w) path = files w path"
  by (simp add: ensure_file_def)

lemma bootstrap_views_file:
  assumes "files w VIEWS_FILE = None"
  shows "files (bootstrap P w) VIEWS_FILE = Some (json_dumps P (counter_doc 0))"
proof -
  define w0 where
    "w0 = (if listdir w DIARY_FOLDER = None
           then w\<lparr>listdir := (listdir w)(DIARY_FOLDER \<mapsto> [])\<rparr> else w)"
  have f0: "files w0 VIEWS_FILE = None"
    using assms by (simp add: w0_def)
  have "files (ensure_file P (VIEWS_FILE, total_views_default) w0) VIEWS_FILE
          = Some (json_dumps P (counter_doc 0))"
    using f0 by (simp add: ensure_file_def total_views_default_def counter_doc_def)
  then show ?thesis
    by (simp add: bootstrap_def w0_def [symmetric] ensure_file_other paths_distinct)
qed

lemma views_try_fault: "views_try P (Some e) w = (Inl e, w)"
  by (simp add: views_try_def open_rw_def)

lemma increment_counter_doc:
  "increment_item P (counter_doc k) ''total_views'' = Inr (counter_doc (k + 1))"
  by (simp add: increment_item_def getitem_def add_one_def setitem_def counter_doc_def)

lemma getitem_counter_doc: "getitem (counter_doc k) ''total_views'' = Inr (JInt k)"
  by (simp add: getitem_def counter_doc_def)

lemma views_try_counter:
  assumes "files w VIEWS_FILE = Some (json_dumps P (counter_doc k))"
    and "json_loads P (json_dumps P (counter_doc k)) = Inr (counter_doc k)"
  shows "views_try P None w
           = (Inr (JInt (k + 1)),
              w\<lparr>files := (files w)(VIEWS_FILE \<mapsto> json_dumps P (counter_doc (k + 1)))\<rparr>)"
  using assms
  by (simp add: views_try_def open_rw_def json_load_def increment_counter_doc Let_def
      close_def overwrite_whole_file getitem_counter_doc)

lemma step_counter:
  assumes "files w VIEWS_FILE = Some (json_dumps P (counter_doc k))"
    and "json_loads P (json_dumps P (counter_doc k)) = Inr (counter_doc k)"
  shows "files (snd (get_and_increment_views P fault w)) VIEWS_FILE
           = Some (json_dumps P (counter_doc (k + (if fault = None then 1 else 0))))"
    and "(case fst (views_try P fault w) of Inr _ \<Rightarrow> 1 | Inl _ \<Rightarrow> 0)
           = (if fault = None then 1 else (0::nat))"
proof -
  show "files (snd (get_and_increment_views P fault w)) VIEWS_FILE
           = Some (json_dumps P (counter_doc (k + (if fault = None then 1 else 0))))"
  proof (cases fault)
    case None
    with views_try_counter [OF assms] show ?thesis
      by (simp add: get_and_increment_views_def)
  next
    case (Some e)
    with assms(1) show ?thesis
      by (simp add: get_and_increment_views_def views_try_fault logger_error_def)
  qed
  show "(case fst (views_try P fault w) of Inr _ \<Rightarrow> 1 | Inl _ \<Rightarrow> 0)
           = (if fault = None then 1 else (0::nat))"
  proof (cases fault)
    case None
    with views_try_counter [OF assms] show ?thesis by simp
  next
    case (Some e)
    then show ?thesis by (simp add: views_try_fault)
  qed
qed

lemma hit_all_counter:
  assumes "files w VIEWS_FILE = Some (json_dumps P (counter_doc k))"
    and "\<forall>n\<in>{k..k + int (length faults)}.
           json_loads P (json_dumps P (counter_doc n)) = Inr (counter_doc n)"
  shows "files (hit_all P faults w) VIEWS_FILE
           = Some (json_dumps P (counter_doc (k + int (successes P faults w))))
         \<and> successes P faults w = length (filter (\<lambda>f. f = None) faults)"
  using assms
proof (induction faults arbitrary: w k)
  case Nil
  then show ?case by simp
next
  case (Cons fault faults)
  let ?w = "snd (get_and_increment_views P fault w)"
  let ?d = "if fault = None then 1 else (0::nat)"
  from Cons.prems(2) have rt: "json_loads P (json_dumps P (counter_doc k)) = Inr (counter_doc k)"
    by simp
  from step_counter(1) [OF Cons.prems(1) rt, of fault]
  have f: "files ?w VIEWS_FILE = Some (json_dumps P (counter_doc (k + int ?d)))"
    by simp
  have s: "(case fst (views_try P fault w) of Inr _ \<Rightarrow> 1 | Inl _ \<Rightarrow> 0) = ?d"
    by (rule step_counter(2) [OF Cons.prems(1) rt])
  from Cons.prems(2)
  have rts: "\<forall>n\<in>{k + int ?d..k + int ?d + int (length faults)}.
           json_loads P (json_dumps P (counter_doc n)) = Inr (counter_doc n)"
    by auto
  from Cons.IH [OF f rts]
  have ih: "files (hit_all P faults ?w) VIEWS_FILE
           = Some (json_dumps P (counter_doc (k + int ?d + int (successes P faults ?w))))"
    and cnt: "successes P faults ?w = length (filter (\<lambda>f. f = None) faults)"
    by simp_all
  have "successes P (fault # faults) w = ?d + successes P faults ?w"
    using s by simp
  with ih cnt show ?case
    by (simp add: add.assoc)
qed

lemma stored_total_counter:
  assumes "files w VIEWS_FILE = Some (json_dumps P (counter_doc k))"
    and "json_loads P (json_dumps P (counter_doc k)) = Inr (counter_doc k)"
  shows "stored_total P w = Some k"
  using assms by (simp add: stored_total_def getitem_counter_doc)

lemma stored_after_run:
  assumes "files w VIEWS_FILE = Some (json_dumps P (counter_doc 0))"
    and "\<forall>n\<in>{0..int (length faults)}.
           json_loads P (json_dumps P (counter_doc n)) = Inr (counter_doc n)"
    and "length xs \<le> length faults"
  shows "stored_total P (hit_all P xs w) = Some (int (length (filter (\<lambda>f. f = None) xs)))
         \<and> successes P xs w = length (filter (\<lambda>f. f = None) xs)"
proof -
  from assms(2,3)
  have rt: "\<forall>n\<in>{0..0 + int (length xs)}.
           json_loads P (json_dumps P (counter_doc n)) = Inr (counter_doc n)"
    by auto
  from hit_all_counter [OF assms(1) rt]
  have f: "files (hit_all P xs w) VIEWS_FILE
           = Some (json_dumps P (counter_doc (int (successes P xs w))))"
    and c: "successes P xs w = length (filter (\<lambda>f. f = None) xs)"
    by simp_all
  have "length (filter (\<lambda>f. f = None) xs) \<le> length xs" by simp
  with assms(3) have "length (filter (\<lambda>f. f = None) xs) \<le> length faults"
    by linarith
  then have "int (successes P xs w) \<in> {0..int (length faults)}"
    using c by simp
  with assms(2)
  have "json_loads P (json_dumps P (counter_doc (int (successes P xs w))))
          = Inr (counter_doc (int (successes P xs w)))"
    by blast
  from stored_total_counter [OF f this] c show ?thesis by simp
qed

text \<open>
  C4. The counter file is created by the start-up code with \<open>total_views\<close> 0. After any
  sequence of calls, each of which the operating system lets open the file or not, the
  stored \<open>total_views\<close> is the number of calls that completed without an exception
  (those whose open was granted), and it never decreases from one point of the sequence
  to a later one. The JSON codec is assumed to read back the counter documents it writes,
  for the numbers up to the length of the sequence.
\<close>

theorem total_views_counts_successes:
  assumes "files w VIEWS_FILE = None"
    and "\<forall>n\<in>{0..int (length faults)}.
           json_loads P (json_dumps P (counter_doc n)) = Inr (counter_doc n)"
  shows "stored_total P (bootstrap P w) = Some 0
         \<and> stored_total P (hit_all P faults (bootstrap P w))
             = Some (int (successes P faults (bootstrap P w)))
         \<and> successes P faults (bootstrap P w) = length (filter (\<lambda>f. f = None) faults)
         \<and> (\<forall>xs ys zs. faults = xs @ ys @ zs \<longrightarrow>
               (\<exists>a b. stored_total P (hit_all P xs (bootstrap P w)) = Some a
                  \<and> stored_total P (hit_all P (xs @ ys) (bootstrap P w)) = Some b \<and> a \<le> b))"
proof -
  let ?w = "bootstrap P w"
  note f = bootstrap_views_file [OF assms(1), of P]
  have 1: "stored_total P ?w = Some 0"
    using stored_after_run [OF f assms(2), of "[]"] by simp
  have 2: "stored_total P (hit_all P faults ?w) = Some (int (successes P faults ?w))"
    and 3: "successes P faults ?w = length (filter (\<lambda>f. f = None) faults)"
    using stored_after_run [OF f assms(2), of faults] by simp_all
  have 4: "\<forall>xs ys zs. faults = xs @ ys @ zs \<longrightarrow>
               (\<exists>a b. stored_total P (hit_all P xs ?w) = Some a
                  \<and> stored_total P (hit_all P (xs @ ys) ?w) = Some b \<and> a \<le> b)"
  proof (intro allI impI)
    fix xs ys zs
    assume e: "faults = xs @ ys @ zs"
    then have "length xs \<le> length faults" and "length (xs @ ys) \<le> length faults"
      by simp_all
    from stored_after_run [OF f assms(2) this(1)] stored_after_run [OF f assms(2) this(2)]
    have "stored_total P (hit_all P xs ?w) = Some (int (length (filter (\<lambda>f. f = None) xs)))"
      and "stored_total P (hit_all P (xs @ ys) ?w)
             = Some (int (length (filter (\<lambda>f. f = None) (xs @ ys))))"
      by simp_all
    moreover have "int (length (filter (\<lambda>f. f = None) xs))
                     \<le> int (length (filter (\<lambda>f. f = None) (xs @ ys)))"
      by simp
    ultimately show "\<exists>a b. stored_total P (hit_all P xs ?w) = Some a
                  \<and> stored_total P (hit_all P (xs @ ys) ?w) = Some b \<and> a \<le> b"
      by blast
  qed
  from 1 2 3 4 show ?thesis by blast
qed

lemma table_platform_roundtrip:
  assumes "n \<in> {0..int (length [None, Some OSError, None])}"
  shows "json_loads table_platform (json_dumps table_platform (counter_doc n)) = Inr (counter_doc n)"
proof -
  from assms have "n = 0 \<or> n = 1 \<or> n = 2 \<or> n = 3" by auto
  then show ?thesis
    by (elim disjE)
      (simp_all add: table_platform_def counter_table_def counter_doc_def counter_text_def)
qed

theorem total_views_counts_successes_witness:
  "files empty_world VIEWS_FILE = None
   \<and> stored_total table_platform
        (hit_all table_platform [None, Some OSError, None] (bootstrap table_platform empty_world))
       = Some 2"
proof -
  have a: "files empty_world VIEWS_FILE = None" by (simp add: empty_world_def)
  have b: "\<forall>n\<in>{0..int (length [None, Some OSError, None])}.
             json_loads table_platform (json_dumps table_platform (counter_doc n))
               = Inr (counter_doc n)"
    using table_platform_roundtrip by blast
  from total_views_counts_successes [OF a b] a show ?thesis by simp
qed

theorem increment_reads_adds_writes_back_witness:
  "fst (views_try table_platform None (bootstrap table_platform empty_world)) = Inr (JInt 1)
   \<and> fst (get_and_increment_views table_platform None (bootstrap table_platform empty_world))
       = JInt 1"
proof -
  have f: "files (bootstrap table_platform empty_world) VIEWS_FILE
             = Some (json_dumps table_platform (counter_doc 0))"
    by (rule bootstrap_views_file) (simp add: empty_world_def)
  have rt: "json_loads table_platform (json_dumps table_platform (counter_doc 0))
              = Inr (counter_doc 0)"
    by (rule table_platform_roundtrip) simp
  have a: "fst (views_try table_platform None (bootstrap table_platform empty_world))
             = Inr (JInt 1)"
    using views_try_counter [OF f rt] by simp
  from increment_reads_adds_writes_back [OF a] a show ?thesis by auto
qed

lemma views_try_failure_cases:
  assumes "fault \<noteq> None \<or> files w VIEWS_FILE = None
           \<or> (\<exists>body e. files w VIEWS_FILE = Some body \<and> json_loads P body = Inl e)"
  shows "\<exists>e. fst (views_try P fault w) = Inl e"
proof -
  consider (fault) "fault \<noteq> None"
    | (absent) "fault = None" "files w VIEWS_FILE = None"
    | (parse) body e where "fault = None" "files w VIEWS_FILE = Some body"
        "json_loads P body = Inl e"
    using assms by (cases "fault = None") auto
  then show ?thesis
  proof cases
    case fault
    then show ?thesis by (auto simp: views_try_fault)
  next
    case absent
    then show ?thesis by (simp add: views_try_def open_rw_def)
  next
    case parse
    then show ?thesis by (simp add: views_try_def open_rw_def json_load_def)
  qed
qed

lemma sentinel_on_failure:
  assumes "fst (views_try P fault w) = Inl e"
  shows "get_and_increment_views P fault w
           = (JInt (- 1), logger_error (''Error updating views: '' @ exc_str P e) w)"
proof -
  from views_try_failure_world [OF assms] assms
  have "views_try P fault w = (Inl e, w)" by (cases "views_try P fault w") simp
  then show ?thesis by (simp add: get_and_increment_views_def)
qed

text \<open>
  C6. When the counter file cannot be opened (it is absent, or the operating system
  refuses), when its text does not parse, or when the \<open>try\<close> body raises anything else,
  the operation returns -1, and the views endpoint answers with the JSON body
  \<open>{"total_views": -1}\<close>.
\<close>

theorem failure_returns_sentinel:
  "fault \<noteq> None \<or> files w VIEWS_FILE = None
     \<or> (\<exists>body e. files w VIEWS_FILE = Some body \<and> json_loads P body = Inl e)
     \<or> (\<exists>e. fst (views_try P fault w) = Inl e)
   \<Longrightarrow> fst (get_and_increment_views P fault w) = JInt (- 1)
       \<and> fst (views_api P fault r w) = Jsonify [(''total_views'', JInt (- 1))]"
proof -
  assume "fault \<noteq> None \<or> files w VIEWS_FILE = None
     \<or> (\<exists>body e. files w VIEWS_FILE = Some body \<and> json_loads P body = Inl e)
     \<or> (\<exists>e. fst (views_try P fault w) = Inl e)"
  with views_try_failure_cases [of fault w P] obtain e
    where "fst (views_try P fault w) = Inl e" by blast
  from sentinel_on_failure [OF this] show ?thesis
    by (simp add: views_api_def)
qed

theorem failure_returns_sentinel_witness:
  "files empty_world VIEWS_FILE = None
   \<and> fst (get_and_increment_views table_platform None empty_world) = JInt (- 1)
   \<and> fst (views_api table_platform None sample_request empty_world)
       = Jsonify [(''total_views'', JInt (- 1))]"
proof -
  have a: "files empty_world VIEWS_FILE = None" by (simp add: empty_world_def)
  then have "None \<noteq> (None :: error option) \<or> files empty_world VIEWS_FILE = None
     \<or> (\<exists>body e. files empty_world VIEWS_FILE = Some body
            \<and> json_loads table_platform body = Inl e)
     \<or> (\<exists>e. fst (views_try table_platform None empty_world) = Inl e)"
    by simp
  from failure_returns_sentinel [OF this, of sample_request] a show ?thesis by simp
qed



section \<open>Properties of the diary listing\<close>


lemma sorted_reverse_descending: "sorted (rev (sorted_reverse names))"
  by (simp add: sorted_reverse_def)


lemma diaries_loop_entries:
  assumes "diaries_loop P w names acc = Inr entries"
  shows "map title entries
           = map title acc @ map (\<lambda>f. replace f ''.md'' []) (filter (\<lambda>f. endswith f ''.md'') names)
         \<and> map (\<lambda>en. Inr (content_html en)) entries
           = map (\<lambda>en. Inr (content_html en)) acc
             @ map (\<lambda>f. markdown_markdown P (the (files w (os_path_join DIARY_FOLDER f)))
                          [''fenced_code'', ''codehilite''])
                 (filter (\<lambda>f. endswith f ''.md'') names)"
  using assms
proof (induction names arbitrary: acc)
  case Nil
  then show ?case by simp
next
  case (Cons filename rest)
  show ?case
  proof (cases "endswith filename ''.md''")
    case False
    with Cons.prems have "diaries_loop P w rest acc = Inr entries" by simp
    from Cons.IH [OF this] False show ?thesis by simp
  next
    case True
    with Cons.prems obtain md_content html_content where
      r: "files w (os_path_join DIARY_FOLDER filename) = Some md_content"
      and m: "markdown_markdown P md_content [''fenced_code'', ''codehilite''] = Inr html_content"
      and l: "diaries_loop P w rest
                (acc @ [\<lparr>title = replace filename ''.md'' [], content_html = html_content\<rparr>])
              = Inr entries"
      by (auto simp: read_text_def split: option.splits sum.splits)
    from Cons.IH [OF l] True r m show ?thesis by simp
  qed
qed



lemma sorted_reverse_sample:
  "sorted_reverse [''2024-01-01.md'', ''readme.txt'', ''notes.md.md'', ''2024-02-01.md'']
     = [''readme.txt'', ''notes.md.md'', ''2024-02-01.md'', ''2024-01-01.md'']"
  by (simp add: sorted_reverse_def less_eq_char_def less_char_def)

lemma replace_sample:
  "replace ''notes.md.md'' ''.md'' [] = ''notes''"
  "replace ''2024-02-01.md'' ''.md'' [] = ''2024-02-01''"
  "replace ''2024-01-01.md'' ''.md'' [] = ''2024-01-01''"
  by (simp_all add: replace_def)

text \<open>
  C2 at a diary folder that holds \<open>notes.md.md\<close>: the listing has the three files whose
  names end in \<open>.md\<close>, in descending order of name, each with its rendering, but the title
  of \<open>notes.md.md\<close> is \<open>notes\<close>, where stripping the extension gives \<open>notes.md\<close>.
\<close>

theorem diary_title_drops_every_md:
  "fst (diaries_page table_platform sample_request diary_world)
     = Template ''diaries.html''
         (Diary_entries
            [\<lparr>title = ''notes'', content_html = ''<p>three</p>''\<rparr>,
             \<lparr>title = ''2024-02-01'', content_html = ''<p>two</p>''\<rparr>,
             \<lparr>title = ''2024-01-01'', content_html = ''<p>one</p>''\<rparr>])
   \<and> spec_title ''notes.md.md'' = ''notes.md''"
proof -
  have "diaries_loop table_platform diary_world
          [''readme.txt'', ''notes.md.md'', ''2024-02-01.md'', ''2024-01-01.md''] []
        = Inr [\<lparr>title = ''notes'', content_html = ''<p>three</p>''\<rparr>,
             \<lparr>title = ''2024-02-01'', content_html = ''<p>two</p>''\<rparr>,
             \<lparr>title = ''2024-01-01'', content_html = ''<p>one</p>''\<rparr>]"
    by (simp add: endswith_def suffix_to_prefix read_text_def os_path_join_def DIARY_FOLDER_def
        diary_world_def table_platform_def replace_sample)
  moreover have "listdir diary_world DIARY_FOLDER
     = Some [''2024-01-01.md'', ''readme.txt'', ''notes.md.md'', ''2024-02-01.md'']"
    by (simp add: diary_world_def DIARY_FOLDER_def)
  moreover have "spec_title ''notes.md.md'' = ''notes.md''"
    by (simp add: spec_title_def endswith_def suffix_to_prefix)
  ultimately show ?thesis
    by (simp add: diaries_page_def diaries_try_def sorted_reverse_sample)
qed

end
